theory Spec2Isabelle
  imports Main
begin

section \<open>Data model\<close>

text \<open>
  The dashboard component \<open>TaskOverview\<close> keeps the task collection in React state and
  talks to the server through \<open>taskService\<close>. A task is a JSON object received from the
  server, so each of its properties may hold any JSON scalar or be missing. The values are
  modelled by \<open>jsval\<close>: \<open>JUndefined\<close> is a missing property, numbers are the integers.
\<close>

datatype jsval = JUndefined | JNull | JBool bool | JNum int | JStr string

record task =
  task_id :: jsval
  taskName :: jsval
  responsible :: jsval
  remarks :: jsval
  status :: jsval
  priority :: jsval
  category :: jsval
  estimatedHours :: jsval
  department :: jsval
  isCritical :: jsval
  completionPercentage :: jsval
  startDate :: jsval
  endDate :: jsval
  lastModifiedBy :: jsval

record summary_data =
  total :: nat
  completed :: nat
  inProgress :: nat
  onHold :: nat
  notStarted :: nat

section \<open>Summary\<close>

text \<open>
  \<open>calculateSummary\<close> builds \<open>summaryData\<close> from five passes over the list: its length and
  four \<open>filter(...).length\<close> counts, each comparing \<open>task.status\<close> with \<open>===\<close> against a
  string literal. The function also stores the object with \<open>setSummary\<close>; the handlers
  below write the returned value into the state.
\<close>

definition calculateSummary :: "task list \<Rightarrow> summary_data" where
  "calculateSummary taskList =
     \<lparr> total = length taskList,
       completed = length (filter (\<lambda>task. status task = JStr ''COMPLETED'') taskList),
       inProgress = length (filter (\<lambda>task. status task = JStr ''IN_PROGRESS'') taskList),
       onHold = length (filter (\<lambda>task. status task = JStr ''HOLD'') taskList),
       notStarted = length (filter (\<lambda>task. status task = JStr ''NOT_STARTED'') taskList) \<rparr>"

text \<open>The four status values that have a bucket of their own.\<close>

definition recognized :: "jsval \<Rightarrow> bool" where
  "recognized s \<longleftrightarrow>
     s = JStr ''COMPLETED'' \<or> s = JStr ''IN_PROGRESS'' \<or> s = JStr ''HOLD'' \<or> s = JStr ''NOT_STARTED''"

definition buckets :: "summary_data \<Rightarrow> nat" where
  "buckets s = completed s + inProgress s + onHold s + notStarted s"

text \<open>A task object with every property missing, used to write concrete tasks briefly.\<close>

definition blank_task :: task where
  "blank_task =
     \<lparr> task_id = JUndefined, taskName = JUndefined, responsible = JUndefined,
       remarks = JUndefined, status = JUndefined, priority = JUndefined,
       category = JUndefined, estimatedHours = JUndefined, department = JUndefined,
       isCritical = JUndefined, completionPercentage = JUndefined, startDate = JUndefined,
       endDate = JUndefined, lastModifiedBy = JUndefined \<rparr>"

section \<open>Strings\<close>

text \<open>
  JavaScript strings are modelled by \<open>string\<close>. \<open>toLowerCase\<close> maps the letters
  \<open>A\<close> to \<open>Z\<close> to \<open>a\<close> to \<open>z\<close> and leaves every other character as it is, which
  is what the built-in does on ASCII text. \<open>js_includes s t\<close> is \<open>s.includes(t)\<close>: the
  search string occurs in \<open>s\<close> at some position. \<open>trim\<close> removes the ASCII white space
  at both ends.
\<close>

definition toLowerCase_char :: "char \<Rightarrow> char" where
  "toLowerCase_char c =
     (if 65 \<le> (of_char c :: nat) \<and> (of_char c :: nat) \<le> 90
      then char_of ((of_char c :: nat) + 32) else c)"

definition toLowerCase :: "string \<Rightarrow> string" where
  "toLowerCase s = map toLowerCase_char s"

fun startsWith :: "string \<Rightarrow> string \<Rightarrow> bool" where
  "startsWith s [] = True"
| "startsWith [] (c # t) = False"
| "startsWith (a # s) (c # t) = (a = c \<and> startsWith s t)"

fun js_includes :: "string \<Rightarrow> string \<Rightarrow> bool" where
  "js_includes [] t = (t = [])"
| "js_includes (a # s) t = (startsWith (a # s) t \<or> js_includes s t)"




text \<open>The decimal rendering of a number, as a template literal produces it.\<close>

function digits_of :: "nat \<Rightarrow> string" where
  "digits_of n = (if n < 10 then [char_of (48 + n)] else digits_of (n div 10) @ [char_of (48 + n mod 10)])"
  by pat_completeness auto
termination
  by (relation "measure (\<lambda>n. n)") auto

fun to_string :: "jsval \<Rightarrow> string" where
  "to_string JUndefined = ''undefined''"
| "to_string JNull = ''null''"
| "to_string (JBool b) = (if b then ''true'' else ''false'')"
| "to_string (JNum n) = (if n < 0 then CHR ''-'' # digits_of (nat (- n)) else digits_of (nat n))"
| "to_string (JStr s) = s"

text \<open>Truthiness, as \<open>&&\<close> and \<open>||\<close> test it.\<close>

fun truthy :: "jsval \<Rightarrow> bool" where
  "truthy JUndefined = False"
| "truthy JNull = False"
| "truthy (JBool b) = b"
| "truthy (JNum n) = (n \<noteq> 0)"
| "truthy (JStr s) = (s \<noteq> [])"

section \<open>The filtered view\<close>

text \<open>
  An exception is a value: \<open>TypeError\<close> is what calling \<open>toLowerCase\<close> on something that
  is not a string raises, \<open>TransportError\<close> is a rejected request of \<open>taskService\<close>.
\<close>

datatype error = TypeError | TransportError string

text \<open>
  \<open>field_includes v searchTerm\<close> is \<open>v.toLowerCase().includes(searchTerm.toLowerCase())\<close>
  for a property value \<open>v\<close>; the search term is the text of an input box, always a string.
\<close>

definition field_includes :: "jsval \<Rightarrow> string \<Rightarrow> error + bool" where
  "field_includes v searchTerm =
     (case v of
        JStr s \<Rightarrow> Inr (js_includes (toLowerCase s) (toLowerCase searchTerm))
      | _ \<Rightarrow> Inl TypeError)"

text \<open>\<open>a || b\<close> on results: \<open>b\<close> is evaluated only when \<open>a\<close> returned and is false.\<close>

definition or_else :: "error + bool \<Rightarrow> error + bool \<Rightarrow> error + bool" where
  "or_else a b = (case a of Inl e \<Rightarrow> Inl e | Inr x \<Rightarrow> (if x then Inr True else b))"

definition matchesFilter :: "string \<Rightarrow> task \<Rightarrow> bool" where
  "matchesFilter flt task \<longleftrightarrow> flt = ''all'' \<or> status task = JStr flt"

definition matchesSearch :: "string \<Rightarrow> task \<Rightarrow> error + bool" where
  "matchesSearch searchTerm task =
     or_else (field_includes (taskName task) searchTerm)
       (or_else (field_includes (responsible task) searchTerm)
          (or_else (field_includes (remarks task) searchTerm)
             (if truthy (lastModifiedBy task)
              then field_includes (lastModifiedBy task) searchTerm
              else Inr False)))"

text \<open>
  The callback of \<open>tasks.filter\<close>: both constants are computed, \<open>matchesSearch\<close> also when
  \<open>matchesFilter\<close> is false, and then combined with \<open>&&\<close>.
\<close>

definition filter_callback :: "string \<Rightarrow> string \<Rightarrow> task \<Rightarrow> error + bool" where
  "filter_callback flt searchTerm task =
     (case matchesSearch searchTerm task of
        Inl e \<Rightarrow> Inl e
      | Inr b \<Rightarrow> Inr (matchesFilter flt task \<and> b))"

text \<open>\<open>Array.prototype.filter\<close> with a callback that may throw: elements are visited in order.\<close>

fun js_filter :: "('a \<Rightarrow> error + bool) \<Rightarrow> 'a list \<Rightarrow> error + 'a list" where
  "js_filter p [] = Inr []"
| "js_filter p (x # xs) =
     (case p x of
        Inl e \<Rightarrow> Inl e
      | Inr b \<Rightarrow> (case js_filter p xs of
                    Inl e \<Rightarrow> Inl e
                  | Inr ys \<Rightarrow> Inr (if b then x # ys else ys)))"

definition filteredTasks :: "string \<Rightarrow> string \<Rightarrow> task list \<Rightarrow> error + task list" where
  "filteredTasks flt searchTerm tasks = js_filter (filter_callback flt searchTerm) tasks"

text \<open>
  The search predicate in the words of the specification: the term is, up to the case of
  letters, a substring of the field; a field that is not a text matches nothing.
\<close>

definition ci_substring :: "string \<Rightarrow> string \<Rightarrow> bool" where
  "ci_substring t s \<longleftrightarrow>
     (\<exists>pre mid suf. s = pre @ mid @ suf
        \<and> list_all2 (\<lambda>a b. toLowerCase_char a = toLowerCase_char b) mid t)"

definition field_matches_spec :: "string \<Rightarrow> jsval \<Rightarrow> bool" where
  "field_matches_spec t v \<longleftrightarrow> (case v of JStr s \<Rightarrow> ci_substring t s | _ \<Rightarrow> False)"

definition search_spec :: "string \<Rightarrow> task \<Rightarrow> bool" where
  "search_spec t task \<longleftrightarrow>
     field_matches_spec t (taskName task) \<or> field_matches_spec t (responsible task)
     \<or> field_matches_spec t (remarks task) \<or> field_matches_spec t (lastModifiedBy task)"

definition status_spec :: "string \<Rightarrow> task \<Rightarrow> bool" where
  "status_spec flt task \<longleftrightarrow> flt = ''all'' \<or> status task = JStr flt"

definition is_text :: "jsval \<Rightarrow> bool" where
  "is_text v \<longleftrightarrow> (case v of JStr s \<Rightarrow> True | _ \<Rightarrow> False)"

text \<open>
  A task as the data model describes it for the view: name, responsible and remarks are
  texts, and last-modified-by is a text or is absent (any falsy value).
\<close>

definition searchable :: "task \<Rightarrow> bool" where
  "searchable task \<longleftrightarrow>
     is_text (taskName task) \<and> is_text (responsible task) \<and> is_text (remarks task)
     \<and> (is_text (lastModifiedBy task) \<or> \<not> truthy (lastModifiedBy task))"

section \<open>Component state, permissions and the transport\<close>

record notification_data =
  show_n :: bool
  message_n :: string
  type_n :: string

record state =
  tasks :: "task list"
  summary :: summary_data
  showNewTaskModal :: bool
  notification :: notification_data
  loading :: bool
  filter_sel :: string
  searchTerm_sel :: string

text \<open>The values of the \<open>useState\<close> calls: what the component holds before any request.\<close>

definition initial_state :: state where
  "initial_state =
     \<lparr> tasks = [],
       summary = \<lparr> total = 0, completed = 0, inProgress = 0, onHold = 0, notStarted = 0 \<rparr>,
       showNewTaskModal = False,
       notification = \<lparr> show_n = False, message_n = [], type_n = [] \<rparr>,
       loading = False,
       filter_sel = ''all'',
       searchTerm_sel = [] \<rparr>"

record user =
  username :: string
  fullName :: string
  role :: string

definition canCreateTask :: "user \<Rightarrow> bool" where
  "canCreateTask currentUser \<longleftrightarrow> role currentUser \<in> set [''ADMIN'', ''SUPERVISOR'']"

definition canDeleteTask :: "user \<Rightarrow> bool" where
  "canDeleteTask currentUser \<longleftrightarrow> role currentUser = ''ADMIN''"

text \<open>
  \<open>showNotification\<close> stores the message; the timer that hides it four seconds later is
  not part of the model.
\<close>

definition showNotification :: "string \<Rightarrow> string \<Rightarrow> state \<Rightarrow> state" where
  "showNotification msg ty st = st\<lparr>notification := \<lparr> show_n = True, message_n = msg, type_n = ty \<rparr>\<rparr>"

text \<open>
  \<open>taskService\<close> is a parameter: for each request it says whether the promise is rejected
  (\<open>Inl\<close>) or resolved, and with which \<open>response.data\<close>. The server answers a list request
  with task objects and a create or update request with one task object.
\<close>

record transport =
  getAllTasks :: "error + task list"
  createTask :: "task \<Rightarrow> error + task"
  updateTask :: "jsval \<Rightarrow> task \<Rightarrow> error + task"
  deleteTask :: "jsval \<Rightarrow> error + unit"

datatype request = GetAllTasks | CreateTask task | UpdateTask jsval task | DeleteTask jsval

text \<open>
  How an \<open>async\<close> handler ends: its promise is resolved with a value (\<open>None\<close> is
  \<open>undefined\<close>, the value of a function without a \<open>return\<close> value) or rejected with the
  error it threw.
\<close>

datatype outcome = Resolved "task option" | Rejected error

text \<open>One call of a handler: the state it leaves, how it ends, and the requests it sent.\<close>

record run =
  after :: state
  outcome :: outcome
  sent :: "request list"

section \<open>The handlers\<close>

definition loadTasks :: "transport \<Rightarrow> state \<Rightarrow> run" where
  "loadTasks srv st =
     (let st1 = st\<lparr>loading := True\<rparr> in
      case getAllTasks srv of
        Inr tasksData \<Rightarrow>
          \<lparr> after = (showNotification ''All tasks loaded successfully!'' ''success''
                       (st1\<lparr>tasks := tasksData, summary := calculateSummary tasksData\<rparr>))
                     \<lparr>loading := False\<rparr>,
            outcome = Resolved None,
            sent = [GetAllTasks] \<rparr>
      | Inl e \<Rightarrow>
          \<lparr> after = (showNotification ''Error loading tasks!'' ''error'' st1)\<lparr>loading := False\<rparr>,
            outcome = Resolved None,
            sent = [GetAllTasks] \<rparr>)"

definition handleTaskUpdate :: "transport \<Rightarrow> user \<Rightarrow> state \<Rightarrow> jsval \<Rightarrow> task \<Rightarrow> run" where
  "handleTaskUpdate srv currentUser st taskId updatedTask =
     (case updateTask srv taskId updatedTask of
        Inr updatedTaskData \<Rightarrow>
          (let updatedTasks = map (\<lambda>task. if task_id task = taskId then updatedTaskData else task) (tasks st) in
           \<lparr> after = showNotification ''Task updated successfully!'' ''success''
                       (st\<lparr>tasks := updatedTasks, summary := calculateSummary updatedTasks\<rparr>),
             outcome = Resolved None,
             sent = [UpdateTask taskId updatedTask] \<rparr>)
      | Inl e \<Rightarrow>
          \<lparr> after = showNotification ''Error updating task!'' ''error'' st,
            outcome = Rejected e,
            sent = [UpdateTask taskId updatedTask] \<rparr>)"

definition handleTaskDelete :: "transport \<Rightarrow> user \<Rightarrow> state \<Rightarrow> jsval \<Rightarrow> jsval \<Rightarrow> run" where
  "handleTaskDelete srv currentUser st taskId taskName_arg =
     (if \<not> canDeleteTask currentUser then
        \<lparr> after = showNotification ''You do not have permission to delete tasks'' ''error'' st,
          outcome = Resolved None,
          sent = [] \<rparr>
      else
        (case deleteTask srv taskId of
           Inr u \<Rightarrow>
             (let updatedTasks = filter (\<lambda>task. task_id task \<noteq> taskId) (tasks st) in
              \<lparr> after = showNotification ''Task deleted successfully!'' ''success''
                          (st\<lparr>tasks := updatedTasks, summary := calculateSummary updatedTasks\<rparr>),
                outcome = Resolved None,
                sent = [DeleteTask taskId] \<rparr>)
         | Inl e \<Rightarrow>
             \<lparr> after = showNotification ''Error deleting task!'' ''error'' st,
               outcome = Resolved None,
               sent = [DeleteTask taskId] \<rparr>))"

definition created_message :: "task \<Rightarrow> string" where
  "created_message createdTask =
     ''Task '' @ [CHR 0x22] @ to_string (taskName createdTask) @ [CHR 0x22] @ '' created successfully!''"

definition handleCreateTask :: "transport \<Rightarrow> user \<Rightarrow> state \<Rightarrow> task \<Rightarrow> run" where
  "handleCreateTask srv currentUser st newTaskData =
     (if \<not> canCreateTask currentUser then
        \<lparr> after = showNotification ''You do not have permission to create tasks'' ''error'' st,
          outcome = Resolved None,
          sent = [] \<rparr>
      else
        (case createTask srv newTaskData of
           Inr createdTask \<Rightarrow>
             (let updatedTasks = tasks st @ [createdTask] in
              \<lparr> after = showNotification (created_message createdTask) ''success''
                          (st\<lparr>tasks := updatedTasks, summary := calculateSummary updatedTasks,
                              showNewTaskModal := False\<rparr>),
                outcome = Resolved None,
                sent = [CreateTask newTaskData] \<rparr>)
         | Inl e \<Rightarrow>
             \<lparr> after = showNotification ''Error creating task!'' ''error'' st,
               outcome = Rejected e,
               sent = [CreateTask newTaskData] \<rparr>))"

section \<open>The creation form\<close>














section \<open>Auxiliary notions for the statements\<close>

text \<open>The length of a text property, and a search term longer than a task's three texts.\<close>

definition text_length :: "jsval \<Rightarrow> nat" where
  "text_length v = (case v of JStr s \<Rightarrow> length s | _ \<Rightarrow> 0)"

definition probe :: "task \<Rightarrow> string" where
  "probe task = replicate (Suc (text_length (taskName task) + text_length (responsible task)
                                 + text_length (remarks task))) (CHR ''a'')"

definition error_note :: "string \<Rightarrow> notification_data" where
  "error_note msg = \<lparr> show_n = True, message_n = msg, type_n = ''error'' \<rparr>"

text \<open>
  A handler call leaves the collection and the summary either both as they were, or with
  the summary being the summary of the collection it leaves.
\<close>

definition settled :: "state \<Rightarrow> run \<Rightarrow> bool" where
  "settled st r \<longleftrightarrow>
     (tasks (after r) = tasks st \<and> summary (after r) = summary st)
     \<or> summary (after r) = calculateSummary (tasks (after r))"

section \<open>Example data\<close>

definition task_A :: task where
  "task_A = blank_task\<lparr>task_id := JNum 1, taskName := JStr ''A'', responsible := JStr ''Operator A'',
      remarks := JStr [], status := JStr ''NOT_STARTED''\<rparr>"

definition task_B :: task where
  "task_B = blank_task\<lparr>task_id := JNum 2, taskName := JStr ''B'', responsible := JStr ''Bob'',
      remarks := JStr ''urgent'', status := JStr ''COMPLETED'', lastModifiedBy := JStr ''root''\<rparr>"

definition task_C :: task where
  "task_C = blank_task\<lparr>task_id := JNum 3, taskName := JStr ''a'', status := JStr ''HOLD''\<rparr>"

definition admin :: user where
  "admin = \<lparr> username = ''root'', fullName = ''Site Admin'', role = ''ADMIN'' \<rparr>"

definition viewer :: user where
  "viewer = \<lparr> username = ''guest'', fullName = ''Guest'', role = ''VIEWER'' \<rparr>"

definition srv_ok :: transport where
  "srv_ok =
     \<lparr> getAllTasks = Inr [task_A, task_B],
       createTask = (\<lambda>d. Inr (d\<lparr>task_id := JNum 3, lastModifiedBy := JStr ''root''\<rparr>)),
       updateTask = (\<lambda>i p. Inr (p\<lparr>task_id := i, lastModifiedBy := JStr ''root''\<rparr>)),
       deleteTask = (\<lambda>i. Inr ()) \<rparr>"

definition srv_down :: transport where
  "srv_down =
     \<lparr> getAllTasks = Inl (TransportError ''Network Error''),
       createTask = (\<lambda>d. Inl (TransportError ''Network Error'')),
       updateTask = (\<lambda>i p. Inl (TransportError ''Network Error'')),
       deleteTask = (\<lambda>i. Inl (TransportError ''Network Error'')) \<rparr>"

definition loaded_state :: state where
  "loaded_state = initial_state\<lparr>tasks := [task_A, task_B], summary := calculateSummary [task_A, task_B]\<rparr>"

definition patch_A :: task where
  "patch_A = task_A\<lparr>status := JStr ''COMPLETED''\<rparr>"


section \<open>C1: the summary\<close>

lemma buckets_split:
  "buckets (calculateSummary T) + length (filter (\<lambda>t. \<not> recognized (status t)) T) = length T"
  by (induction T) (auto simp: buckets_def calculateSummary_def recognized_def)

lemma unrecognized_none:
  "length (filter (\<lambda>t. \<not> recognized (status t)) T) = 0 \<longleftrightarrow> (\<forall>t \<in> set T. recognized (status t))"
  by (induction T) auto

text \<open>
  C1. For every task list \<open>T\<close> the summary's total is the length of \<open>T\<close>; each bucket is
  the number of tasks of \<open>T\<close> whose status is the corresponding recognized value; the four
  buckets add up to at most the total, and to exactly the total if and only if every task
  has one of the four recognized status values. A task with another status is counted in
  the total and in no bucket.
\<close>

theorem summary_counts:
  "total (calculateSummary T) = length T
   \<and> completed (calculateSummary T) = card {i. i < length T \<and> status (T ! i) = JStr ''COMPLETED''}
   \<and> inProgress (calculateSummary T) = card {i. i < length T \<and> status (T ! i) = JStr ''IN_PROGRESS''}
   \<and> onHold (calculateSummary T) = card {i. i < length T \<and> status (T ! i) = JStr ''HOLD''}
   \<and> notStarted (calculateSummary T) = card {i. i < length T \<and> status (T ! i) = JStr ''NOT_STARTED''}
   \<and> buckets (calculateSummary T) \<le> total (calculateSummary T)
   \<and> (buckets (calculateSummary T) = total (calculateSummary T)
        \<longleftrightarrow> (\<forall>t \<in> set T. recognized (status t)))
   \<and> buckets (calculateSummary T) + length (filter (\<lambda>t. \<not> recognized (status t)) T)
        = total (calculateSummary T)"
proof -
  have tot: "total (calculateSummary T) = length T"
    by (simp add: calculateSummary_def)
  have split: "buckets (calculateSummary T) + length (filter (\<lambda>t. \<not> recognized (status t)) T) = length T"
    by (rule buckets_split)
  have le: "buckets (calculateSummary T) \<le> length T"
    using split by arith
  have eq: "buckets (calculateSummary T) = length T \<longleftrightarrow> (\<forall>t \<in> set T. recognized (status t))"
    using split unrecognized_none [of T] by arith
  have cnt: "\<And>P. length (filter P T) = card {i. i < length T \<and> P (T ! i)}"
    by (rule length_filter_conv_card)
  show ?thesis
    using tot split le eq by (simp add: calculateSummary_def cnt)
qed

theorem summary_counts_witness:
  "total (calculateSummary
       [blank_task\<lparr>status := JStr ''COMPLETED''\<rparr>, blank_task\<lparr>status := JStr ''ARCHIVED''\<rparr>]) = 2
   \<and> buckets (calculateSummary
       [blank_task\<lparr>status := JStr ''COMPLETED''\<rparr>, blank_task\<lparr>status := JStr ''ARCHIVED''\<rparr>]) = 1
   \<and> \<not> (\<forall>t \<in> set [blank_task\<lparr>status := JStr ''COMPLETED''\<rparr>, blank_task\<lparr>status := JStr ''ARCHIVED''\<rparr>].
          recognized (status t))"
  using summary_counts
    [of "[blank_task\<lparr>status := JStr ''COMPLETED''\<rparr>, blank_task\<lparr>status := JStr ''ARCHIVED''\<rparr>]"]
  by (simp add: calculateSummary_def buckets_def recognized_def blank_task_def)

section \<open>C2: the filtered view on well-formed tasks\<close>

lemma startsWith_iff: "startsWith s t \<longleftrightarrow> (\<exists>q. s = t @ q)"
  by (induction s t rule: startsWith.induct) auto

lemma js_includes_iff: "js_includes s t \<longleftrightarrow> (\<exists>p q. s = p @ t @ q)"
proof (induction s)
  case Nil
  then show ?case by auto
next
  case (Cons a s)
  show ?case
  proof
    assume "js_includes (a # s) t"
    then consider "startsWith (a # s) t" | "js_includes s t" by auto
    then show "\<exists>p q. a # s = p @ t @ q"
    proof cases
      case 1
      then obtain q where "a # s = t @ q" using startsWith_iff by blast
      then have "a # s = [] @ t @ q" by simp
      then show ?thesis by blast
    next
      case 2
      then obtain p q where "s = p @ t @ q" using Cons.IH by blast
      then have "a # s = (a # p) @ t @ q" by simp
      then show ?thesis by blast
    qed
  next
    assume "\<exists>p q. a # s = p @ t @ q"
    then obtain p q where pq: "a # s = p @ t @ q" by blast
    show "js_includes (a # s) t"
    proof (cases p)
      case Nil
      with pq have "startsWith (a # s) t" using startsWith_iff by auto
      then show ?thesis by simp
    next
      case (Cons b p')
      with pq have "s = p' @ t @ q" by simp
      then have "js_includes s t" using Cons.IH by blast
      then show ?thesis by simp
    qed
  qed
qed

lemma map_eq_all2: "map f xs = map f ys \<longleftrightarrow> list_all2 (\<lambda>a b. f a = f b) xs ys"
proof (induction xs arbitrary: ys)
  case Nil
  show ?case by auto
next
  case (Cons x xs)
  show ?case by (cases ys) (auto simp: Cons.IH)
qed

lemma includes_lower_iff:
  "js_includes (toLowerCase s) (toLowerCase t) \<longleftrightarrow> ci_substring t s"
proof
  assume "js_includes (toLowerCase s) (toLowerCase t)"
  then obtain p q where "map toLowerCase_char s = p @ map toLowerCase_char t @ q"
    unfolding js_includes_iff toLowerCase_def by blast
  then have "\<exists>pre rest. s = pre @ rest \<and> p = map toLowerCase_char pre
            \<and> map toLowerCase_char t @ q = map toLowerCase_char rest"
    by (simp add: map_eq_append_conv)
  then obtain pre rest where s: "s = pre @ rest"
    and rest: "map toLowerCase_char rest = map toLowerCase_char t @ q"
    by auto
  from rest have "\<exists>mid suf. rest = mid @ suf \<and> map toLowerCase_char t = map toLowerCase_char mid
            \<and> q = map toLowerCase_char suf"
    by (simp add: map_eq_append_conv)
  then obtain mid suf where r: "rest = mid @ suf"
    and m: "map toLowerCase_char mid = map toLowerCase_char t"
    by auto
  from m have "list_all2 (\<lambda>a b. toLowerCase_char a = toLowerCase_char b) mid t"
    by (simp add: map_eq_all2)
  with s r show "ci_substring t s" unfolding ci_substring_def by blast
next
  assume "ci_substring t s"
  then obtain pre mid suf where s: "s = pre @ mid @ suf"
    and m: "list_all2 (\<lambda>a b. toLowerCase_char a = toLowerCase_char b) mid t"
    unfolding ci_substring_def by blast
  from m have "map toLowerCase_char mid = map toLowerCase_char t"
    by (simp add: map_eq_all2)
  with s have "toLowerCase s = toLowerCase pre @ toLowerCase t @ toLowerCase suf"
    by (simp add: toLowerCase_def)
  then show "js_includes (toLowerCase s) (toLowerCase t)"
    unfolding js_includes_iff by blast
qed

lemma ci_substring_Nil: "ci_substring [] s"
  unfolding ci_substring_def by (rule exI [of _ "[]"], rule exI [of _ "[]"], rule exI [of _ s]) simp

lemma ci_substring_in_Nil: "ci_substring t [] \<longleftrightarrow> t = []"
  unfolding ci_substring_def by auto

lemma field_includes_text:
  "is_text v \<Longrightarrow> field_includes v t = Inr (field_matches_spec t v)"
  by (cases v) (simp_all add: is_text_def field_includes_def field_matches_spec_def includes_lower_iff)

lemma field_matches_falsy:
  assumes "\<not> truthy v" and "field_matches_spec t v"
  shows "t = []"
  using assms by (cases v) (simp_all add: field_matches_spec_def ci_substring_in_Nil)

lemma field_matches_empty: "is_text v \<Longrightarrow> field_matches_spec [] v"
  by (cases v) (simp_all add: is_text_def field_matches_spec_def ci_substring_Nil)

lemma matchesSearch_searchable:
  assumes "searchable task"
  shows "matchesSearch t task = Inr (search_spec t task)"
proof -
  from assms have n: "is_text (taskName task)" and r: "is_text (responsible task)"
    and m: "is_text (remarks task)"
    and l: "is_text (lastModifiedBy task) \<or> \<not> truthy (lastModifiedBy task)"
    by (simp_all add: searchable_def)
  show ?thesis
  proof (cases "truthy (lastModifiedBy task)")
    case True
    with l have "is_text (lastModifiedBy task)" by simp
    with n r m True show ?thesis
      by (simp add: matchesSearch_def search_spec_def or_else_def field_includes_text)
  next
    case False
    have "field_matches_spec t (lastModifiedBy task) \<Longrightarrow> field_matches_spec t (taskName task)"
      using field_matches_falsy [OF False] field_matches_empty [OF n] by blast
    with n r m False show ?thesis
      by (auto simp: matchesSearch_def search_spec_def or_else_def field_includes_text)
  qed
qed

lemma js_filter_total:
  "\<forall>x \<in> set xs. p x = Inr (q x) \<Longrightarrow> js_filter p xs = Inr (filter q xs)"
  by (induction xs) simp_all

lemma filter_callback_searchable:
  "searchable task \<Longrightarrow>
   filter_callback flt t task = Inr (status_spec flt task \<and> search_spec t task)"
  by (simp add: filter_callback_def matchesSearch_searchable matchesFilter_def status_spec_def)




section \<open>C10: missing or non-text properties in the search\<close>

lemma includes_longer: "length s < length t \<Longrightarrow> \<not> js_includes (toLowerCase s) (toLowerCase t)"
proof
  assume len: "length s < length t" and "js_includes (toLowerCase s) (toLowerCase t)"
  then obtain p q where "toLowerCase s = p @ toLowerCase t @ q"
    unfolding js_includes_iff by blast
  then have "length (toLowerCase s) = length p + length (toLowerCase t) + length q"
    by simp
  with len show False by (simp add: toLowerCase_def)
qed

lemma field_includes_probe:
  "text_length v < length t \<Longrightarrow> field_includes v t = (if is_text v then Inr False else Inl TypeError)"
  by (cases v) (simp_all add: field_includes_def is_text_def text_length_def includes_longer)

lemma matchesSearch_name: "\<not> is_text (taskName task) \<Longrightarrow> matchesSearch t task = Inl TypeError"
  by (cases "taskName task") (simp_all add: matchesSearch_def or_else_def field_includes_def is_text_def)

lemma matchesSearch_probe:
  assumes "\<not> is_text (taskName task) \<or> \<not> is_text (responsible task) \<or> \<not> is_text (remarks task)"
  shows "matchesSearch (probe task) task = Inl TypeError"
proof -
  have "text_length (taskName task) < length (probe task)"
    and "text_length (responsible task) < length (probe task)"
    and "text_length (remarks task) < length (probe task)"
    by (simp_all add: probe_def)
  then show ?thesis
    using assms by (auto simp: matchesSearch_def or_else_def field_includes_probe)
qed

lemma matchesSearch_error: "matchesSearch t task = Inl e \<Longrightarrow> e = TypeError"
  by (auto simp: matchesSearch_def or_else_def field_includes_def split: jsval.splits if_splits sum.splits)

lemma filter_callback_error: "filter_callback flt t task = Inl e \<Longrightarrow> e = TypeError"
  by (auto simp: filter_callback_def split: sum.splits dest: matchesSearch_error)

lemma js_filter_throws:
  assumes "x \<in> set xs" and "p x = Inl TypeError" and "\<And>y e. p y = Inl e \<Longrightarrow> e = TypeError"
  shows "js_filter p xs = Inl TypeError"
  using assms(1,2)
proof (induction xs)
  case Nil
  then show ?case by simp
next
  case (Cons y ys)
  show ?case
  proof (cases "p y")
    case (Inl e)
    then have "e = TypeError" by (rule assms(3))
    with Inl show ?thesis by simp
  next
    case (Inr b)
    with Cons.prems have "x \<in> set ys" by auto
    then have "js_filter p ys = Inl TypeError" using Cons.IH Cons.prems(2) by blast
    with Inr show ?thesis by simp
  qed
qed

lemma filteredTasks_throws:
  assumes "task \<in> set T" and "matchesSearch t task = Inl TypeError"
  shows "filteredTasks flt t T = Inl TypeError"
  unfolding filteredTasks_def
proof (rule js_filter_throws [OF assms(1)])
  show "filter_callback flt t task = Inl TypeError"
    using assms(2) by (simp add: filter_callback_def)
  show "\<And>y e. filter_callback flt t y = Inl e \<Longrightarrow> e = TypeError"
    by (rule filter_callback_error)
qed

text \<open>
  C10, as stated, says that name, responsible and remarks are lower-cased unconditionally.
  The disjunction short-circuits: a task whose name matches the term is accepted without
  a look at its responsible or remarks. With the empty term a task that lacks both is
  returned and nothing is raised.
\<close>

theorem lowercase_not_unconditional:
  "\<not> is_text (responsible task_C) \<and> \<not> is_text (remarks task_C)
   \<and> filteredTasks ''all'' [] [task_C] = Inr [task_C]"
  by code_simp

text \<open>
  C10, amended. Only last-modified-by is guarded: on a collection of well-formed tasks
  (last-modified-by a text or absent) the view returns for every filter and term. The name
  is lower-cased for every task and every term, so a task whose name is not a text makes
  the view raise a TypeError whatever the filter and the term. Responsible and remarks
  are lower-cased only when the fields before them did not match; still, for a collection
  with a task on which one of the three is not a text there is a search term for which the
  view raises. Hence the view returns for every search term only if all three are texts on
  every task.
\<close>

theorem search_guard_partial:
  "((\<forall>task \<in> set T. searchable task) \<longrightarrow> (\<exists>r. filteredTasks flt t T = Inr r))
   \<and> ((\<exists>task \<in> set T. \<not> is_text (taskName task)) \<longrightarrow> filteredTasks flt t T = Inl TypeError)
   \<and> ((\<exists>task \<in> set T. \<not> is_text (taskName task) \<or> \<not> is_text (responsible task)
                          \<or> \<not> is_text (remarks task))
        \<longrightarrow> (\<exists>t'. filteredTasks flt t' T = Inl TypeError))
   \<and> ((\<forall>t'. \<exists>r. filteredTasks flt t' T = Inr r)
        \<longrightarrow> (\<forall>task \<in> set T. is_text (taskName task) \<and> is_text (responsible task)
                                \<and> is_text (remarks task)))"
proof -
  have ok: "(\<forall>task \<in> set T. searchable task) \<longrightarrow> (\<exists>r. filteredTasks flt t T = Inr r)"
    unfolding filteredTasks_def
    using js_filter_total [of T "filter_callback flt t" "\<lambda>x. status_spec flt x \<and> search_spec t x"]
    by (simp add: filter_callback_searchable)
  have name: "(\<exists>task \<in> set T. \<not> is_text (taskName task)) \<longrightarrow> filteredTasks flt t T = Inl TypeError"
    using filteredTasks_throws matchesSearch_name by blast
  have reach: "\<And>task. task \<in> set T \<Longrightarrow>
      \<not> is_text (taskName task) \<or> \<not> is_text (responsible task) \<or> \<not> is_text (remarks task) \<Longrightarrow>
      filteredTasks flt (probe task) T = Inl TypeError"
    using filteredTasks_throws matchesSearch_probe by blast
  have some: "(\<exists>task \<in> set T. \<not> is_text (taskName task) \<or> \<not> is_text (responsible task)
                          \<or> \<not> is_text (remarks task))
        \<longrightarrow> (\<exists>t'. filteredTasks flt t' T = Inl TypeError)"
    using reach by blast
  have only: "(\<forall>t'. \<exists>r. filteredTasks flt t' T = Inr r)
        \<longrightarrow> (\<forall>task \<in> set T. is_text (taskName task) \<and> is_text (responsible task)
                                \<and> is_text (remarks task))"
  proof (intro impI ballI)
    fix task
    assume tot: "\<forall>t'. \<exists>r. filteredTasks flt t' T = Inr r" and mem: "task \<in> set T"
    show "is_text (taskName task) \<and> is_text (responsible task) \<and> is_text (remarks task)"
    proof (rule ccontr)
      assume "\<not> ?thesis"
      then have "filteredTasks flt (probe task) T = Inl TypeError"
        using reach [OF mem] by blast
      with tot show False by (metis sum.distinct(1))
    qed
  qed
  show ?thesis using ok name some only by blast
qed

theorem search_guard_partial_witness:
  "searchable task_A \<and> searchable task_B
   \<and> (\<exists>r. filteredTasks ''all'' ''a'' [task_A, task_B] = Inr r)
   \<and> (\<exists>task \<in> set [task_A, task_C]. \<not> is_text (taskName task) \<or> \<not> is_text (responsible task)
                          \<or> \<not> is_text (remarks task))
   \<and> (\<exists>t'. filteredTasks ''all'' t' [task_A, task_C] = Inl TypeError)
   \<and> filteredTasks ''all'' ''b'' [task_A, task_C] = Inl TypeError
   \<and> (\<exists>task \<in> set [blank_task]. \<not> is_text (taskName task))
   \<and> filteredTasks ''all'' [] [blank_task] = Inl TypeError"
proof -
  have ab: "searchable task_A" "searchable task_B" by code_simp+
  then have h1: "\<forall>task \<in> set [task_A, task_B]. searchable task" by simp
  have h2: "\<exists>task \<in> set [task_A, task_C]. \<not> is_text (taskName task) \<or> \<not> is_text (responsible task)
                          \<or> \<not> is_text (remarks task)" by code_simp
  have h3: "\<exists>task \<in> set [blank_task]. \<not> is_text (taskName task)" by code_simp
  have e: "filteredTasks ''all'' ''b'' [task_A, task_C] = Inl TypeError" by code_simp
  show ?thesis
    using ab h1 h2 h3 e
      search_guard_partial [of "[task_A, task_B]" "''all''" "''a''"]
      search_guard_partial [of "[task_A, task_C]" "''all''" "''a''"]
      search_guard_partial [of "[blank_task]" "''all''" "[]"]
    by blast
qed

section \<open>C3: a failing transport\<close>

lemma handlers_settled:
  "settled st (loadTasks srv st)" "settled st (handleTaskUpdate srv u st i p)"
  "settled st (handleTaskDelete srv u st i n)" "settled st (handleCreateTask srv u st d)"
proof -
  show "settled st (loadTasks srv st)"
    by (cases "getAllTasks srv") (simp_all add: settled_def loadTasks_def showNotification_def)
  show "settled st (handleTaskUpdate srv u st i p)"
    by (cases "updateTask srv i p")
      (simp_all add: settled_def handleTaskUpdate_def showNotification_def Let_def)
  show "settled st (handleTaskDelete srv u st i n)"
    by (cases "deleteTask srv i")
      (simp_all add: settled_def handleTaskDelete_def showNotification_def Let_def)
  show "settled st (handleCreateTask srv u st d)"
    by (cases "createTask srv d")
      (simp_all add: settled_def handleCreateTask_def showNotification_def Let_def)
qed

text \<open>
  C3, as stated, has the error of a failed request surfaced to the caller in all four
  operations. \<open>loadTasks\<close> and \<open>handleTaskDelete\<close> catch it and do not throw it
  again: with a transport that rejects every request their promise is resolved, and the
  caller is not given the error.
\<close>

theorem load_delete_swallow_error:
  "getAllTasks srv_down = Inl (TransportError ''Network Error'')
   \<and> outcome (loadTasks srv_down loaded_state) = Resolved None
   \<and> canDeleteTask admin
   \<and> deleteTask srv_down (JNum 1) = Inl (TransportError ''Network Error'')
   \<and> outcome (handleTaskDelete srv_down admin loaded_state (JNum 1) (JStr ''A'')) = Resolved None
   \<and> outcome (handleTaskDelete srv_down admin loaded_state (JNum 1) (JStr ''A''))
       \<noteq> Rejected (TransportError ''Network Error'')"
  by code_simp

text \<open>
  C3, amended. When the request fails, each of load, update, delete and create leaves the
  collection and the summary as they were and shows its error notification (a fixed text);
  update and create throw the error on to their caller, load and delete end normally.
  When the request succeeds, the summary stored is the summary of the collection stored.
  In every case a handler leaves collection and summary either both unchanged or updated
  together.
\<close>

theorem failed_transport_keeps_state:
  "(getAllTasks srv = Inl e \<longrightarrow>
       tasks (after (loadTasks srv st)) = tasks st
     \<and> summary (after (loadTasks srv st)) = summary st
     \<and> notification (after (loadTasks srv st)) = error_note ''Error loading tasks!''
     \<and> outcome (loadTasks srv st) = Resolved None)
   \<and> (updateTask srv i p = Inl e \<longrightarrow>
       tasks (after (handleTaskUpdate srv u st i p)) = tasks st
     \<and> summary (after (handleTaskUpdate srv u st i p)) = summary st
     \<and> notification (after (handleTaskUpdate srv u st i p)) = error_note ''Error updating task!''
     \<and> outcome (handleTaskUpdate srv u st i p) = Rejected e)
   \<and> (canDeleteTask u \<and> deleteTask srv i = Inl e \<longrightarrow>
       tasks (after (handleTaskDelete srv u st i n)) = tasks st
     \<and> summary (after (handleTaskDelete srv u st i n)) = summary st
     \<and> notification (after (handleTaskDelete srv u st i n)) = error_note ''Error deleting task!''
     \<and> outcome (handleTaskDelete srv u st i n) = Resolved None)
   \<and> (canCreateTask u \<and> createTask srv d = Inl e \<longrightarrow>
       tasks (after (handleCreateTask srv u st d)) = tasks st
     \<and> summary (after (handleCreateTask srv u st d)) = summary st
     \<and> notification (after (handleCreateTask srv u st d)) = error_note ''Error creating task!''
     \<and> outcome (handleCreateTask srv u st d) = Rejected e)
   \<and> (getAllTasks srv = Inr T \<longrightarrow>
       tasks (after (loadTasks srv st)) = T
     \<and> summary (after (loadTasks srv st)) = calculateSummary T)
   \<and> (updateTask srv i p = Inr c \<longrightarrow>
       summary (after (handleTaskUpdate srv u st i p))
         = calculateSummary (tasks (after (handleTaskUpdate srv u st i p))))
   \<and> (canDeleteTask u \<and> deleteTask srv i = Inr () \<longrightarrow>
       summary (after (handleTaskDelete srv u st i n))
         = calculateSummary (tasks (after (handleTaskDelete srv u st i n))))
   \<and> (canCreateTask u \<and> createTask srv d = Inr c \<longrightarrow>
       summary (after (handleCreateTask srv u st d))
         = calculateSummary (tasks (after (handleCreateTask srv u st d))))
   \<and> settled st (loadTasks srv st) \<and> settled st (handleTaskUpdate srv u st i p)
   \<and> settled st (handleTaskDelete srv u st i n) \<and> settled st (handleCreateTask srv u st d)"
proof -
  have l: "getAllTasks srv = Inl e \<longrightarrow>
       tasks (after (loadTasks srv st)) = tasks st
     \<and> summary (after (loadTasks srv st)) = summary st
     \<and> notification (after (loadTasks srv st)) = error_note ''Error loading tasks!''
     \<and> outcome (loadTasks srv st) = Resolved None"
    by (simp add: loadTasks_def showNotification_def error_note_def)
  have up: "updateTask srv i p = Inl e \<longrightarrow>
       tasks (after (handleTaskUpdate srv u st i p)) = tasks st
     \<and> summary (after (handleTaskUpdate srv u st i p)) = summary st
     \<and> notification (after (handleTaskUpdate srv u st i p)) = error_note ''Error updating task!''
     \<and> outcome (handleTaskUpdate srv u st i p) = Rejected e"
    by (simp add: handleTaskUpdate_def showNotification_def error_note_def)
  have del: "canDeleteTask u \<and> deleteTask srv i = Inl e \<longrightarrow>
       tasks (after (handleTaskDelete srv u st i n)) = tasks st
     \<and> summary (after (handleTaskDelete srv u st i n)) = summary st
     \<and> notification (after (handleTaskDelete srv u st i n)) = error_note ''Error deleting task!''
     \<and> outcome (handleTaskDelete srv u st i n) = Resolved None"
    by (simp add: handleTaskDelete_def showNotification_def error_note_def)
  have cr: "canCreateTask u \<and> createTask srv d = Inl e \<longrightarrow>
       tasks (after (handleCreateTask srv u st d)) = tasks st
     \<and> summary (after (handleCreateTask srv u st d)) = summary st
     \<and> notification (after (handleCreateTask srv u st d)) = error_note ''Error creating task!''
     \<and> outcome (handleCreateTask srv u st d) = Rejected e"
    by (simp add: handleCreateTask_def showNotification_def error_note_def)
  have l2: "getAllTasks srv = Inr T \<longrightarrow>
       tasks (after (loadTasks srv st)) = T
     \<and> summary (after (loadTasks srv st)) = calculateSummary T"
    by (simp add: loadTasks_def showNotification_def Let_def)
  have up2: "updateTask srv i p = Inr c \<longrightarrow>
       summary (after (handleTaskUpdate srv u st i p))
         = calculateSummary (tasks (after (handleTaskUpdate srv u st i p)))"
    by (simp add: handleTaskUpdate_def showNotification_def Let_def)
  have del2: "canDeleteTask u \<and> deleteTask srv i = Inr () \<longrightarrow>
       summary (after (handleTaskDelete srv u st i n))
         = calculateSummary (tasks (after (handleTaskDelete srv u st i n)))"
    by (simp add: handleTaskDelete_def showNotification_def Let_def)
  have cr2: "canCreateTask u \<and> createTask srv d = Inr c \<longrightarrow>
       summary (after (handleCreateTask srv u st d))
         = calculateSummary (tasks (after (handleCreateTask srv u st d)))"
    by (simp add: handleCreateTask_def showNotification_def Let_def)
  show ?thesis
    using l up del cr l2 up2 del2 cr2 handlers_settled by blast
qed

theorem failed_transport_keeps_state_witness:
  "getAllTasks srv_down = Inl (TransportError ''Network Error'')
   \<and> tasks (after (loadTasks srv_down loaded_state)) = [task_A, task_B]
   \<and> updateTask srv_down (JNum 1) patch_A = Inl (TransportError ''Network Error'')
   \<and> outcome (handleTaskUpdate srv_down viewer loaded_state (JNum 1) patch_A)
       = Rejected (TransportError ''Network Error'')
   \<and> canDeleteTask admin \<and> deleteTask srv_down (JNum 1) = Inl (TransportError ''Network Error'')
   \<and> tasks (after (handleTaskDelete srv_down admin loaded_state (JNum 1) (JStr ''A''))) = [task_A, task_B]
   \<and> canCreateTask admin \<and> createTask srv_down patch_A = Inl (TransportError ''Network Error'')
   \<and> summary (after (handleCreateTask srv_down admin loaded_state patch_A)) = summary loaded_state
   \<and> getAllTasks srv_ok = Inr [task_A, task_B]
   \<and> tasks (after (loadTasks srv_ok initial_state)) = [task_A, task_B]
   \<and> deleteTask srv_ok (JNum 1) = Inr ()
   \<and> total (summary (after (handleTaskDelete srv_ok admin loaded_state (JNum 1) (JStr ''A'')))) = 1"
proof -
  have h: "getAllTasks srv_down = Inl (TransportError ''Network Error'')"
    "updateTask srv_down (JNum 1) patch_A = Inl (TransportError ''Network Error'')"
    "canDeleteTask admin \<and> deleteTask srv_down (JNum 1) = Inl (TransportError ''Network Error'')"
    "canCreateTask admin \<and> createTask srv_down patch_A = Inl (TransportError ''Network Error'')"
    "getAllTasks srv_ok = Inr [task_A, task_B]"
    "canDeleteTask admin \<and> deleteTask srv_ok (JNum 1) = Inr ()"
    by code_simp+
  have v: "tasks loaded_state = [task_A, task_B]"
    "total (summary (after (handleTaskDelete srv_ok admin loaded_state (JNum 1) (JStr ''A'')))) = 1"
    by code_simp+
  show ?thesis
    using h v
      failed_transport_keeps_state [where srv = srv_down and e = "TransportError ''Network Error''"
        and st = loaded_state and i = "JNum 1" and p = patch_A and u = admin and n = "JStr ''A''"
        and d = patch_A]
      failed_transport_keeps_state [where srv = srv_down and e = "TransportError ''Network Error''"
        and st = loaded_state and i = "JNum 1" and p = patch_A and u = viewer]
      failed_transport_keeps_state [where srv = srv_ok and st = initial_state and T = "[task_A, task_B]"]
    by simp
qed

section \<open>C4: update and the role of the caller\<close>

text \<open>
  C4. \<open>handleTaskUpdate\<close> does not look at the role. For a VIEWER and a transport that
  accepts the request, the update request is sent and the collection is changed, while
  the same VIEWER's delete and create requests are stopped before the transport.
\<close>

theorem viewer_update_reaches_transport:
  "role viewer = ''VIEWER''
   \<and> sent (handleTaskUpdate srv_ok viewer loaded_state (JNum 1) patch_A) = [UpdateTask (JNum 1) patch_A]
   \<and> outcome (handleTaskUpdate srv_ok viewer loaded_state (JNum 1) patch_A) = Resolved None
   \<and> tasks (after (handleTaskUpdate srv_ok viewer loaded_state (JNum 1) patch_A))
        = [patch_A\<lparr>lastModifiedBy := JStr ''root''\<rparr>, task_B]
   \<and> tasks (after (handleTaskUpdate srv_ok viewer loaded_state (JNum 1) patch_A)) \<noteq> tasks loaded_state
   \<and> sent (handleTaskDelete srv_ok viewer loaded_state (JNum 1) (JStr ''A'')) = []
   \<and> sent (handleCreateTask srv_ok viewer loaded_state patch_A) = []"
  by code_simp

section \<open>C5: the gates of create and delete\<close>

text \<open>
  C5, as stated, has create and delete by a VIEWER fail with an error. The handlers show
  the notification and return: their promise is resolved, not rejected.
\<close>

theorem permission_denial_resolves:
  "role viewer = ''VIEWER''
   \<and> outcome (handleCreateTask srv_ok viewer loaded_state patch_A) = Resolved None
   \<and> outcome (handleTaskDelete srv_ok viewer loaded_state (JNum 1) (JStr ''A'')) = Resolved None"
  by code_simp

text \<open>
  C5, amended. For a VIEWER, create and delete are refused: the handler shows the error
  notification that the permission is missing and ends normally, no request is sent, and
  the state is unchanged but for the notification, so collection and summary are as they
  were. More generally create sends its request exactly when the role is ADMIN or
  SUPERVISOR, delete exactly when it is ADMIN, and every other role is refused in the
  same way.
\<close>

theorem create_delete_gate:
  "(role u = ''VIEWER'' \<longrightarrow>
       notification (after (handleCreateTask srv u st d))
         = error_note ''You do not have permission to create tasks''
     \<and> outcome (handleCreateTask srv u st d) = Resolved None
     \<and> sent (handleCreateTask srv u st d) = []
     \<and> tasks (after (handleCreateTask srv u st d)) = tasks st
     \<and> summary (after (handleCreateTask srv u st d)) = summary st
     \<and> notification (after (handleTaskDelete srv u st i n))
         = error_note ''You do not have permission to delete tasks''
     \<and> outcome (handleTaskDelete srv u st i n) = Resolved None
     \<and> sent (handleTaskDelete srv u st i n) = []
     \<and> tasks (after (handleTaskDelete srv u st i n)) = tasks st
     \<and> summary (after (handleTaskDelete srv u st i n)) = summary st)
   \<and> sent (handleCreateTask srv u st d)
        = (if role u = ''ADMIN'' \<or> role u = ''SUPERVISOR'' then [CreateTask d] else [])
   \<and> (\<not> (role u = ''ADMIN'' \<or> role u = ''SUPERVISOR'') \<longrightarrow>
        after (handleCreateTask srv u st d)
          = st\<lparr>notification := error_note ''You do not have permission to create tasks''\<rparr>)
   \<and> sent (handleTaskDelete srv u st i n) = (if role u = ''ADMIN'' then [DeleteTask i] else [])
   \<and> (role u \<noteq> ''ADMIN'' \<longrightarrow>
        after (handleTaskDelete srv u st i n)
          = st\<lparr>notification := error_note ''You do not have permission to delete tasks''\<rparr>)"
proof -
  have c: "sent (handleCreateTask srv u st d)
        = (if role u = ''ADMIN'' \<or> role u = ''SUPERVISOR'' then [CreateTask d] else [])"
    by (cases "createTask srv d")
      (simp_all add: handleCreateTask_def canCreateTask_def Let_def)
  have c': "\<not> (role u = ''ADMIN'' \<or> role u = ''SUPERVISOR'') \<longrightarrow>
        after (handleCreateTask srv u st d)
          = st\<lparr>notification := error_note ''You do not have permission to create tasks''\<rparr>"
    by (simp add: handleCreateTask_def canCreateTask_def showNotification_def error_note_def)
  have d: "sent (handleTaskDelete srv u st i n) = (if role u = ''ADMIN'' then [DeleteTask i] else [])"
    by (cases "deleteTask srv i")
      (simp_all add: handleTaskDelete_def canDeleteTask_def Let_def)
  have d': "role u \<noteq> ''ADMIN'' \<longrightarrow>
        after (handleTaskDelete srv u st i n)
          = st\<lparr>notification := error_note ''You do not have permission to delete tasks''\<rparr>"
    by (simp add: handleTaskDelete_def canDeleteTask_def showNotification_def error_note_def)
  have v: "role u = ''VIEWER'' \<longrightarrow>
       notification (after (handleCreateTask srv u st d))
         = error_note ''You do not have permission to create tasks''
     \<and> outcome (handleCreateTask srv u st d) = Resolved None
     \<and> sent (handleCreateTask srv u st d) = []
     \<and> tasks (after (handleCreateTask srv u st d)) = tasks st
     \<and> summary (after (handleCreateTask srv u st d)) = summary st
     \<and> notification (after (handleTaskDelete srv u st i n))
         = error_note ''You do not have permission to delete tasks''
     \<and> outcome (handleTaskDelete srv u st i n) = Resolved None
     \<and> sent (handleTaskDelete srv u st i n) = []
     \<and> tasks (after (handleTaskDelete srv u st i n)) = tasks st
     \<and> summary (after (handleTaskDelete srv u st i n)) = summary st"
    by (simp add: handleCreateTask_def canCreateTask_def handleTaskDelete_def canDeleteTask_def
        showNotification_def error_note_def)
  show ?thesis
    using v c c' d d' by blast
qed

theorem create_delete_gate_witness:
  "role viewer = ''VIEWER''
   \<and> sent (handleCreateTask srv_ok viewer loaded_state patch_A) = []
   \<and> tasks (after (handleCreateTask srv_ok viewer loaded_state patch_A)) = [task_A, task_B]
   \<and> sent (handleTaskDelete srv_ok viewer loaded_state (JNum 1) (JStr ''A'')) = []
   \<and> tasks (after (handleTaskDelete srv_ok viewer loaded_state (JNum 1) (JStr ''A''))) = [task_A, task_B]
   \<and> sent (handleCreateTask srv_ok admin loaded_state patch_A) = [CreateTask patch_A]"
proof -
  have h: "role viewer = ''VIEWER''" "role admin = ''ADMIN''" "tasks loaded_state = [task_A, task_B]"
    by code_simp+
  show ?thesis
    using h
      create_delete_gate [where u = viewer and srv = srv_ok and st = loaded_state and d = patch_A
        and i = "JNum 1" and n = "JStr ''A''"]
      create_delete_gate [where u = admin and srv = srv_ok and st = loaded_state and d = patch_A]
    by simp
qed

section \<open>C6: a successful create\<close>

text \<open>
  C6. When create is permitted and the transport returns a task, the new collection is the
  old one followed by that task: every earlier position holds what it held, the one new
  position is the last and holds the returned task, which occurs exactly once unless an
  equal task was already there. The stored summary is the summary of the new collection
  and its total is the total of the old collection plus one.
\<close>

theorem create_appends:
  assumes "canCreateTask u" and "createTask srv d = Inr c"
  shows "tasks (after (handleCreateTask srv u st d)) = tasks st @ [c]
     \<and> last (tasks (after (handleCreateTask srv u st d))) = c
     \<and> length (tasks (after (handleCreateTask srv u st d))) = length (tasks st) + 1
     \<and> (\<forall>k < length (tasks st). tasks (after (handleCreateTask srv u st d)) ! k = tasks st ! k)
     \<and> tasks (after (handleCreateTask srv u st d)) ! length (tasks st) = c
     \<and> (c \<notin> set (tasks st) \<longrightarrow> count_list (tasks (after (handleCreateTask srv u st d))) c = 1)
     \<and> summary (after (handleCreateTask srv u st d))
          = calculateSummary (tasks (after (handleCreateTask srv u st d)))
     \<and> total (summary (after (handleCreateTask srv u st d)))
          = total (calculateSummary (tasks st)) + 1
     \<and> outcome (handleCreateTask srv u st d) = Resolved None
     \<and> sent (handleCreateTask srv u st d) = [CreateTask d]"
proof -
  have t: "tasks (after (handleCreateTask srv u st d)) = tasks st @ [c]"
    using assms by (simp add: handleCreateTask_def showNotification_def Let_def)
  have s: "summary (after (handleCreateTask srv u st d)) = calculateSummary (tasks st @ [c])"
    using assms by (simp add: handleCreateTask_def showNotification_def Let_def)
  have o: "outcome (handleCreateTask srv u st d) = Resolved None
     \<and> sent (handleCreateTask srv u st d) = [CreateTask d]"
    using assms by (simp add: handleCreateTask_def Let_def)
  have n: "\<forall>k < length (tasks st). (tasks st @ [c]) ! k = tasks st ! k"
    by (simp add: nth_append)
  have cnt: "c \<notin> set (tasks st) \<longrightarrow> count_list (tasks st @ [c]) c = 1"
    by (simp add: count_list_0_iff)
  have tot: "total (calculateSummary (tasks st @ [c])) = total (calculateSummary (tasks st)) + 1"
    by (simp add: calculateSummary_def)
  show ?thesis
    using t s o n cnt tot by simp
qed

theorem create_appends_witness:
  "canCreateTask admin
   \<and> createTask srv_ok patch_A = Inr (patch_A\<lparr>task_id := JNum 3, lastModifiedBy := JStr ''root''\<rparr>)
   \<and> tasks (after (handleCreateTask srv_ok admin loaded_state patch_A))
       = [task_A, task_B, patch_A\<lparr>task_id := JNum 3, lastModifiedBy := JStr ''root''\<rparr>]
   \<and> total (summary (after (handleCreateTask srv_ok admin loaded_state patch_A))) = 3"
proof -
  have h1: "canCreateTask admin" by code_simp
  have h2: "createTask srv_ok patch_A = Inr (patch_A\<lparr>task_id := JNum 3, lastModifiedBy := JStr ''root''\<rparr>)"
    by code_simp
  have v: "tasks loaded_state = [task_A, task_B]" "total (calculateSummary [task_A, task_B]) = 2"
    by code_simp+
  note t = create_appends [OF h1 h2, of loaded_state]
  from t have a: "tasks (after (handleCreateTask srv_ok admin loaded_state patch_A))
      = tasks loaded_state @ [patch_A\<lparr>task_id := JNum 3, lastModifiedBy := JStr ''root''\<rparr>]"
    by blast
  from t have b: "total (summary (after (handleCreateTask srv_ok admin loaded_state patch_A)))
      = total (calculateSummary (tasks loaded_state)) + 1"
    by blast
  show ?thesis
    using h1 h2 a b v by simp
qed

section \<open>C8: update of an identifier that is not in the collection\<close>

text \<open>
  C8, as stated, has the task returned by the server delivered to the caller.
  \<open>handleTaskUpdate\<close> has no return value: its promise is resolved with \<open>undefined\<close>.
\<close>

theorem update_returns_nothing:
  "tasks loaded_state = [task_A, task_B]
   \<and> task_id task_A \<noteq> JNum 99 \<and> task_id task_B \<noteq> JNum 99
   \<and> updateTask srv_ok (JNum 99) patch_A = Inr (patch_A\<lparr>task_id := JNum 99, lastModifiedBy := JStr ''root''\<rparr>)
   \<and> outcome (handleTaskUpdate srv_ok admin loaded_state (JNum 99) patch_A) = Resolved None
   \<and> outcome (handleTaskUpdate srv_ok admin loaded_state (JNum 99) patch_A)
       \<noteq> Resolved (Some (patch_A\<lparr>task_id := JNum 99, lastModifiedBy := JStr ''root''\<rparr>))"
  by code_simp

text \<open>
  C8, amended. When no task of the collection has the given identifier and the transport
  returns a task, update sends its request, leaves the collection as it was, element for
  element, stores the summary of that collection, shows the success notification and ends
  normally without an error; the returned task is not handed to the caller.
\<close>

theorem update_absent_id:
  assumes "\<forall>t \<in> set (tasks st). task_id t \<noteq> i" and "updateTask srv i p = Inr c"
  shows "tasks (after (handleTaskUpdate srv u st i p)) = tasks st
     \<and> summary (after (handleTaskUpdate srv u st i p)) = calculateSummary (tasks st)
     \<and> outcome (handleTaskUpdate srv u st i p) = Resolved None
     \<and> sent (handleTaskUpdate srv u st i p) = [UpdateTask i p]
     \<and> notification (after (handleTaskUpdate srv u st i p))
         = \<lparr> show_n = True, message_n = ''Task updated successfully!'', type_n = ''success'' \<rparr>"
proof -
  have m: "map (\<lambda>task. if task_id task = i then c else task) (tasks st) = tasks st"
    using assms(1) by (simp add: map_idI)
  show ?thesis
    using assms(2) m by (simp add: handleTaskUpdate_def showNotification_def Let_def)
qed

theorem update_absent_id_witness:
  "tasks loaded_state = [task_A, task_B]
   \<and> task_id task_A \<noteq> JNum 99 \<and> task_id task_B \<noteq> JNum 99
   \<and> updateTask srv_ok (JNum 99) patch_A = Inr (patch_A\<lparr>task_id := JNum 99, lastModifiedBy := JStr ''root''\<rparr>)
   \<and> tasks (after (handleTaskUpdate srv_ok admin loaded_state (JNum 99) patch_A)) = [task_A, task_B]
   \<and> sent (handleTaskUpdate srv_ok admin loaded_state (JNum 99) patch_A) = [UpdateTask (JNum 99) patch_A]"
proof -
  have v: "tasks loaded_state = [task_A, task_B]"
    "task_id task_A \<noteq> JNum 99" "task_id task_B \<noteq> JNum 99"
    by code_simp+
  then have h1: "\<forall>t \<in> set (tasks loaded_state). task_id t \<noteq> JNum 99" by simp
  have h2: "updateTask srv_ok (JNum 99) patch_A
      = Inr (patch_A\<lparr>task_id := JNum 99, lastModifiedBy := JStr ''root''\<rparr>)" by code_simp
  show ?thesis
    using v h2 update_absent_id [OF h1 h2, of admin] by simp
qed

section \<open>C9: mutations before the first load\<close>

text \<open>
  C9, as stated, has a mutation before the first load fail without a request. The
  component starts with the empty collection and no handler asks whether a load has
  happened: in the initial state an ADMIN's create, update and delete each send their
  request and end normally, and create stores the returned task.
\<close>

theorem mutation_before_load_proceeds:
  "canCreateTask admin
   \<and> tasks initial_state = []
   \<and> outcome (handleCreateTask srv_ok admin initial_state patch_A) = Resolved None
   \<and> sent (handleCreateTask srv_ok admin initial_state patch_A) = [CreateTask patch_A]
   \<and> tasks (after (handleCreateTask srv_ok admin initial_state patch_A))
       = [patch_A\<lparr>task_id := JNum 3, lastModifiedBy := JStr ''root''\<rparr>]
   \<and> sent (handleTaskUpdate srv_ok admin initial_state (JNum 1) patch_A) = [UpdateTask (JNum 1) patch_A]
   \<and> sent (handleTaskDelete srv_ok admin initial_state (JNum 1) (JStr ''A'')) = [DeleteTask (JNum 1)]"
  by code_simp

text \<open>
  C9, amended. In the initial state, before any load, a mutation runs as in any other
  state: a permitted create whose request succeeds stores the returned task as the only
  element and the summary of that collection; an update or a permitted delete whose
  request succeeds sends it and leaves the empty collection; the only error a handler
  ends with is the one of its own failed request, and delete ends with none. A load whose
  request succeeds stores the received collection.
\<close>

theorem initial_state_mutations:
  "(canCreateTask u \<and> createTask srv d = Inr c \<longrightarrow>
       tasks (after (handleCreateTask srv u initial_state d)) = [c]
     \<and> summary (after (handleCreateTask srv u initial_state d)) = calculateSummary [c]
     \<and> outcome (handleCreateTask srv u initial_state d) = Resolved None
     \<and> sent (handleCreateTask srv u initial_state d) = [CreateTask d])
   \<and> (updateTask srv i p = Inr c \<longrightarrow>
       tasks (after (handleTaskUpdate srv u initial_state i p)) = []
     \<and> outcome (handleTaskUpdate srv u initial_state i p) = Resolved None
     \<and> sent (handleTaskUpdate srv u initial_state i p) = [UpdateTask i p])
   \<and> (canDeleteTask u \<and> deleteTask srv i = Inr () \<longrightarrow>
       tasks (after (handleTaskDelete srv u initial_state i n)) = []
     \<and> outcome (handleTaskDelete srv u initial_state i n) = Resolved None
     \<and> sent (handleTaskDelete srv u initial_state i n) = [DeleteTask i])
   \<and> (\<forall>e. outcome (handleCreateTask srv u initial_state d) = Rejected e \<longrightarrow> createTask srv d = Inl e)
   \<and> (\<forall>e. outcome (handleTaskUpdate srv u initial_state i p) = Rejected e \<longrightarrow> updateTask srv i p = Inl e)
   \<and> (\<forall>e. outcome (handleTaskDelete srv u initial_state i n) \<noteq> Rejected e)
   \<and> (getAllTasks srv = Inr T \<longrightarrow> tasks (after (loadTasks srv initial_state)) = T)"
proof -
  have a: "canCreateTask u \<and> createTask srv d = Inr c \<longrightarrow>
       tasks (after (handleCreateTask srv u initial_state d)) = [c]
     \<and> summary (after (handleCreateTask srv u initial_state d)) = calculateSummary [c]
     \<and> outcome (handleCreateTask srv u initial_state d) = Resolved None
     \<and> sent (handleCreateTask srv u initial_state d) = [CreateTask d]"
    by (simp add: handleCreateTask_def showNotification_def Let_def initial_state_def)
  have b: "updateTask srv i p = Inr c \<longrightarrow>
       tasks (after (handleTaskUpdate srv u initial_state i p)) = []
     \<and> outcome (handleTaskUpdate srv u initial_state i p) = Resolved None
     \<and> sent (handleTaskUpdate srv u initial_state i p) = [UpdateTask i p]"
    by (simp add: handleTaskUpdate_def showNotification_def Let_def initial_state_def)
  have c: "canDeleteTask u \<and> deleteTask srv i = Inr () \<longrightarrow>
       tasks (after (handleTaskDelete srv u initial_state i n)) = []
     \<and> outcome (handleTaskDelete srv u initial_state i n) = Resolved None
     \<and> sent (handleTaskDelete srv u initial_state i n) = [DeleteTask i]"
    by (simp add: handleTaskDelete_def showNotification_def Let_def initial_state_def)
  have d: "\<forall>e. outcome (handleCreateTask srv u initial_state d) = Rejected e \<longrightarrow> createTask srv d = Inl e"
    by (cases "createTask srv d") (simp_all add: handleCreateTask_def Let_def)
  have e: "\<forall>e. outcome (handleTaskUpdate srv u initial_state i p) = Rejected e \<longrightarrow> updateTask srv i p = Inl e"
    by (cases "updateTask srv i p") (simp_all add: handleTaskUpdate_def Let_def)
  have f: "\<forall>e. outcome (handleTaskDelete srv u initial_state i n) \<noteq> Rejected e"
    by (cases "deleteTask srv i") (simp_all add: handleTaskDelete_def Let_def)
  have g: "getAllTasks srv = Inr T \<longrightarrow> tasks (after (loadTasks srv initial_state)) = T"
    by (simp add: loadTasks_def showNotification_def)
  show ?thesis
    using a b c d e f g by blast
qed

theorem initial_state_mutations_witness:
  "canCreateTask admin
   \<and> createTask srv_ok patch_A = Inr (patch_A\<lparr>task_id := JNum 3, lastModifiedBy := JStr ''root''\<rparr>)
   \<and> tasks (after (handleCreateTask srv_ok admin initial_state patch_A))
       = [patch_A\<lparr>task_id := JNum 3, lastModifiedBy := JStr ''root''\<rparr>]
   \<and> canDeleteTask admin \<and> deleteTask srv_ok (JNum 1) = Inr ()
   \<and> sent (handleTaskDelete srv_ok admin initial_state (JNum 1) (JStr ''A'')) = [DeleteTask (JNum 1)]"
proof -
  have h: "canCreateTask admin"
    "createTask srv_ok patch_A = Inr (patch_A\<lparr>task_id := JNum 3, lastModifiedBy := JStr ''root''\<rparr>)"
    "canDeleteTask admin" "deleteTask srv_ok (JNum 1) = Inr ()"
    by code_simp+
  show ?thesis
    using h
      initial_state_mutations [where u = admin and srv = srv_ok and d = patch_A and i = "JNum 1"
        and c = "patch_A\<lparr>task_id := JNum 3, lastModifiedBy := JStr ''root''\<rparr>" and n = "JStr ''A''"]
    by simp
qed

section \<open>C7: the draft built by the creation form\<close>







end
